theory Spec2Isabelle
  imports Main "HOL-Library.Word"
begin

section \<open>Data model of tetrisDraft.cpp\<close>

text \<open>
  The C++ type \<^verbatim>\<open>int\<close> of the block coordinates is a 32-bit two's-complement
  integer: \<open>+\<close> and unary \<open>-\<close> wrap around, and a comparison compares the signed
  values, read with \<open>sint\<close>.
\<close>

type_synonym int32 = "32 word"

text \<open>
  \<^verbatim>\<open>enum class TetrominoType { I, O, T, S, Z, J, L, NONE }\<close>. The enumerators are
  prefixed with \<open>T_\<close>: single capital letters are taken in HOL (\<open>O\<close> composes
  relations).
\<close>

datatype TetrominoType = T_I | T_O | T_T | T_S | T_Z | T_J | T_L | NONE

text \<open>\<^verbatim>\<open>(int)type\<close>: the enumerators count from 0.\<close>

fun int_of_TetrominoType :: "TetrominoType \<Rightarrow> nat" where
  "int_of_TetrominoType T_I = 0"
| "int_of_TetrominoType T_O = 1"
| "int_of_TetrominoType T_T = 2"
| "int_of_TetrominoType T_S = 3"
| "int_of_TetrominoType T_Z = 4"
| "int_of_TetrominoType T_J = 5"
| "int_of_TetrominoType T_L = 6"
| "int_of_TetrominoType NONE = 7"

text \<open>
  \<^verbatim>\<open>static_cast<TetrominoType>(n)\<close> for a non-negative \<open>n\<close>; \<open>None\<close> when \<open>n\<close> is the
  value of no enumerator.
\<close>

definition TetrominoType_of_int :: "nat \<Rightarrow> TetrominoType option" where
  "TetrominoType_of_int n =
     (if n = 0 then Some T_I else if n = 1 then Some T_O else if n = 2 then Some T_T
      else if n = 3 then Some T_S else if n = 4 then Some T_Z else if n = 5 then Some T_J
      else if n = 6 then Some T_L else if n = 7 then Some NONE else None)"

text \<open>\<^verbatim>\<open>struct Point { int x, y; }\<close>; the fields are read with \<open>px\<close> and \<open>py\<close>.\<close>

datatype Point = Point (px: int32) (py: int32)

text \<open>
  \<^verbatim>\<open>class Tetromino\<close>: the field \<^verbatim>\<open>type\<close> is \<open>ttype\<close> here, \<^verbatim>\<open>blocks\<close> is the
  vector of points, \<^verbatim>\<open>rotation\<close> the rotation field.
\<close>

record Tetromino =
  ttype :: TetrominoType
  blocks :: "Point list"
  rotation :: int32

text \<open>The static table \<^verbatim>\<open>Tetromino::baseShapes\<close>, one row per type I, O, T, S, Z, J, L.\<close>

definition baseShapes :: "Point list list" where
  "baseShapes =
    [[Point 0 0, Point 1 0, Point 2 0, Point 3 0],
     [Point 0 0, Point 1 0, Point 0 1, Point 1 1],
     [Point 0 0, Point 1 0, Point 2 0, Point 1 1],
     [Point 1 0, Point 2 0, Point 0 1, Point 1 1],
     [Point 0 0, Point 1 0, Point 1 1, Point 2 1],
     [Point 0 0, Point 0 1, Point 1 1, Point 2 1],
     [Point 2 0, Point 0 1, Point 1 1, Point 2 1]]"

text \<open>
  The constructor \<^verbatim>\<open>Tetromino::Tetromino(TetrominoType type)\<close>, named
  \<open>new_Tetromino\<close> beside the record type: \<^verbatim>\<open>blocks\<close> stays the
  empty vector for \<^verbatim>\<open>NONE\<close>; every other enumerator indexes the table within range.
\<close>

definition new_Tetromino :: "TetrominoType \<Rightarrow> Tetromino" where
  "new_Tetromino t =
     \<lparr>ttype = t,
      blocks = (if t \<noteq> NONE then baseShapes ! int_of_TetrominoType t else []),
      rotation = 0\<rparr>"

text \<open>
  \<^verbatim>\<open>Tetromino::rotate\<close> (\<open>rotate\<close> and \<open>move\<close> carry the class name here: \<open>rotate\<close>
  is a list function of HOL): every block \<open>(x, y)\<close> becomes \<open>(-y, x)\<close>.
\<close>

definition rotate_block :: "Point \<Rightarrow> Point" where
  "rotate_block b = Point (- py b) (px b)"

definition Tetromino_rotate :: "Tetromino \<Rightarrow> Tetromino" where
  "Tetromino_rotate p = p\<lparr>blocks := map rotate_block (blocks p)\<rparr>"

text \<open>\<^verbatim>\<open>Tetromino::move\<close> and \<^verbatim>\<open>Tetromino::getMovedShape\<close>.\<close>

definition move_block :: "int32 \<Rightarrow> int32 \<Rightarrow> Point \<Rightarrow> Point" where
  "move_block dx dy b = Point (px b + dx) (py b + dy)"

definition Tetromino_move :: "Tetromino \<Rightarrow> int32 \<Rightarrow> int32 \<Rightarrow> Tetromino" where
  "Tetromino_move p dx dy = p\<lparr>blocks := map (move_block dx dy) (blocks p)\<rparr>"

definition getMovedShape :: "Tetromino \<Rightarrow> int32 \<Rightarrow> int32 \<Rightarrow> Point list" where
  "getMovedShape p dx dy = map (move_block dx dy) (blocks p)"

text \<open>A sequence of calls of the two mutating methods of a piece.\<close>

datatype piece_op = Rotate | Move int32 int32

fun apply_piece_op :: "piece_op \<Rightarrow> Tetromino \<Rightarrow> Tetromino" where
  "apply_piece_op Rotate p = Tetromino_rotate p"
| "apply_piece_op (Move dx dy) p = Tetromino_move p dx dy"

definition apply_piece_ops :: "piece_op list \<Rightarrow> Tetromino \<Rightarrow> Tetromino" where
  "apply_piece_ops ops p = fold apply_piece_op ops p"

subsection \<open>The game\<close>

text \<open>
  \<^verbatim>\<open>std::vector::operator[]\<close> does not check its index: reading outside the vector is
  undefined behaviour. The model makes it the error \<open>OutOfRange\<close>. An \<^verbatim>\<open>int\<close> index is
  converted to \<^verbatim>\<open>size_t\<close>, so a negative index is beyond every size.
\<close>

datatype error = OutOfRange

definition vector_at :: "'a list \<Rightarrow> int32 \<Rightarrow> error + 'a" where
  "vector_at v i =
     (if sint i < 0 then Inl OutOfRange
      else if nat (sint i) < length v then Inr (v ! nat (sint i))
      else Inl OutOfRange)"

definition GRID_WIDTH :: int where
  "GRID_WIDTH = 10"

definition GRID_HEIGHT :: int where
  "GRID_HEIGHT = 20"

text \<open>
  \<^verbatim>\<open>class TetrisGame\<close>. The fields \<^verbatim>\<open>score\<close>, \<^verbatim>\<open>level\<close> and \<^verbatim>\<open>linesCleared\<close> are
  \<^verbatim>\<open>int\<close>s, 32-bit like the coordinates: a sum that leaves the range wraps around.
  The \<^verbatim>\<open>float fallSpeed\<close> is left out: nothing below reads it.
\<close>

record TetrisGame =
  grid :: "char list list"
  currentPiece :: Tetromino
  score :: int32
  level :: int32
  linesCleared :: int32
  gameOver :: bool
  paused :: bool

text \<open>
  \<^verbatim>\<open>TetrisGame::checkCollision\<close>, on the grid of the game: the loop over the blocks
  returns at the first block that is outside the columns, at or below the bottom, or on
  a cell that is not a blank. Only the row index can leave the vector here: nothing
  keeps a negative \<^verbatim>\<open>block.y\<close> from \<^verbatim>\<open>grid[block.y]\<close>.
\<close>

fun checkCollision :: "char list list \<Rightarrow> Point list \<Rightarrow> error + bool" where
  "checkCollision g [] = Inr False"
| "checkCollision g (block # rest) =
     (if sint (px block) < 0 \<or> GRID_WIDTH \<le> sint (px block) \<or> GRID_HEIGHT \<le> sint (py block)
      then Inr True
      else (case vector_at g (py block) of
              Inl e \<Rightarrow> Inl e
            | Inr row \<Rightarrow>
                (case vector_at row (px block) of
                   Inl e \<Rightarrow> Inl e
                 | Inr cell \<Rightarrow> if cell \<noteq> CHR '' '' then Inr True else checkCollision g rest)))"

text \<open>
  \<^verbatim>\<open>TetrisGame::getRandomPieceType\<close>; \<open>r\<close> is what \<^verbatim>\<open>std::rand()\<close> returned, a value
  from 0 to \<^verbatim>\<open>RAND_MAX\<close>.
\<close>

definition getRandomPieceType :: "nat \<Rightarrow> TetrominoType option" where
  "getRandomPieceType r = TetrominoType_of_int (r mod 7)"

text \<open>
  \<^verbatim>\<open>TetrisGame::generateNewPiece\<close>. A value that is no enumerator would index the shape
  table out of range in the constructor of the piece.
\<close>

definition generateNewPiece :: "nat \<Rightarrow> TetrisGame \<Rightarrow> error + TetrisGame" where
  "generateNewPiece r g =
     (case getRandomPieceType r of
        None \<Rightarrow> Inl OutOfRange
      | Some t \<Rightarrow>
          (let g1 = g\<lparr>currentPiece := new_Tetromino t\<rparr> in
           case checkCollision (grid g1) (blocks (currentPiece g1)) of
             Inl e \<Rightarrow> Inl e
           | Inr c \<Rightarrow> Inr (if c then g1\<lparr>gameOver := True\<rparr> else g1)))"

text \<open>
  \<^verbatim>\<open>TetrisGame::initializeGame\<close> and the constructor \<^verbatim>\<open>TetrisGame::TetrisGame\<close>:
  its member initializers, then \<open>initializeGame\<close>; \<open>r\<close> is again the value of
  \<^verbatim>\<open>std::rand()\<close>.
\<close>

definition emptyGrid :: "char list list" where
  "emptyGrid = replicate (nat GRID_HEIGHT) (replicate (nat GRID_WIDTH) CHR '' '')"

definition initializeGame :: "nat \<Rightarrow> TetrisGame \<Rightarrow> error + TetrisGame" where
  "initializeGame r g = generateNewPiece r (g\<lparr>grid := emptyGrid\<rparr>)"

definition initializers :: TetrisGame where
  "initializers =
     \<lparr>grid = emptyGrid, currentPiece = new_Tetromino NONE, score = 0, level = 1,
      linesCleared = 0, gameOver = False, paused = False\<rparr>"

definition new_TetrisGame :: "nat \<Rightarrow> error + TetrisGame" where
  "new_TetrisGame r = initializeGame r initializers"

text \<open>
  The grid the constructor builds and every later assignment keeps: 20 rows of 10 cells.
\<close>

definition grid_wf :: "char list list \<Rightarrow> bool" where
  "grid_wf g = (length g = nat GRID_HEIGHT \<and> list_all (\<lambda>row. length row = nat GRID_WIDTH) g)"

text \<open>What \<open>checkCollision\<close> tests of one block.\<close>

definition out_of_bounds :: "Point \<Rightarrow> bool" where
  "out_of_bounds b =
     (sint (px b) < 0 \<or> GRID_WIDTH \<le> sint (px b) \<or> GRID_HEIGHT \<le> sint (py b))"

definition occupied :: "char list list \<Rightarrow> Point \<Rightarrow> bool" where
  "occupied g b = (g ! nat (sint (py b)) ! nat (sint (px b)) \<noteq> CHR '' '')"

text \<open>A block above the field and within its columns: the one the bounds test lets through
  to a row that does not exist.\<close>

definition above_field :: "Point \<Rightarrow> bool" where
  "above_field b = (0 \<le> sint (px b) \<and> sint (px b) < GRID_WIDTH \<and> sint (py b) < 0)"

subsection \<open>Operations declared in the class and never defined\<close>

text \<open>
  The file declares \<^verbatim>\<open>getRotatedShape\<close>, \<^verbatim>\<open>movePieceLeft\<close>, \<^verbatim>\<open>movePieceRight\<close>,
  \<^verbatim>\<open>movePieceDown\<close>, \<^verbatim>\<open>rotatePiece\<close>, \<^verbatim>\<open>updateGrid\<close>, \<^verbatim>\<open>clearLines\<close>,
  \<^verbatim>\<open>updateScore\<close>, \<^verbatim>\<open>updateLevel\<close>, \<^verbatim>\<open>checkGameOver\<close> and \<^verbatim>\<open>pauseGame\<close> and gives
  none of them a body. What follows takes each of them from the specification of the
  game. Of the two other declarations without a body, \<^verbatim>\<open>handleInput\<close> is the choice of
  the operation for the key that was read, and \<^verbatim>\<open>hardDrop\<close> is a sequence of gravity
  steps, the last of which locks the piece.
\<close>

text \<open>
  Modelled from the spec: the body of \<^verbatim>\<open>Tetromino::getRotatedShape\<close> is missing. The
  candidate of a rotation has \<open>new_x = -old_y\<close>, \<open>new_y = old_x\<close> for every block and
  leaves the piece as it is.
\<close>

definition getRotatedShape :: "Tetromino \<Rightarrow> Point list" where
  "getRotatedShape p = map rotate_block (blocks p)"

text \<open>
  Modelled from the spec: the bodies of \<^verbatim>\<open>movePieceLeft\<close>, \<^verbatim>\<open>movePieceRight\<close> and
  \<^verbatim>\<open>movePieceDown\<close> are missing. Each operation computes a candidate with the piece,
  validates it with \<open>checkCollision\<close> and commits it only if it is legal; an illegal
  candidate leaves the state unchanged. \<open>movePiece\<close> is what the three have in common.
\<close>

definition movePiece :: "int32 \<Rightarrow> int32 \<Rightarrow> TetrisGame \<Rightarrow> error + TetrisGame" where
  "movePiece dx dy g =
     (case checkCollision (grid g) (getMovedShape (currentPiece g) dx dy) of
        Inl e \<Rightarrow> Inl e
      | Inr c \<Rightarrow>
          Inr (if c then g else g\<lparr>currentPiece := Tetromino_move (currentPiece g) dx dy\<rparr>))"

text \<open>Modelled from the spec: \<^verbatim>\<open>movePieceLeft\<close> (no body), one column to the left.\<close>

definition movePieceLeft :: "TetrisGame \<Rightarrow> error + TetrisGame" where
  "movePieceLeft g = movePiece (- 1) 0 g"

text \<open>Modelled from the spec: \<^verbatim>\<open>movePieceRight\<close> (no body), one column to the right.\<close>

definition movePieceRight :: "TetrisGame \<Rightarrow> error + TetrisGame" where
  "movePieceRight g = movePiece 1 0 g"

text \<open>
  Modelled from the spec: \<^verbatim>\<open>movePieceDown\<close> (no body), the soft drop: one row down,
  subject to the collision check like every move.
\<close>

definition movePieceDown :: "TetrisGame \<Rightarrow> error + TetrisGame" where
  "movePieceDown g = movePiece 0 1 g"

text \<open>
  Modelled from the spec: \<^verbatim>\<open>rotatePiece\<close> (no body) validates the rotated candidate and
  commits the rotation only if it is legal. The declaration returns a \<^verbatim>\<open>bool\<close> to which
  the specification gives no meaning; the model returns the state.
\<close>

definition rotatePiece :: "TetrisGame \<Rightarrow> error + TetrisGame" where
  "rotatePiece g =
     (case checkCollision (grid g) (getRotatedShape (currentPiece g)) of
        Inl e \<Rightarrow> Inl e
      | Inr c \<Rightarrow> Inr (if c then g else g\<lparr>currentPiece := Tetromino_rotate (currentPiece g)\<rparr>))"

text \<open>
  Modelled from the spec: the lock step has no function of its own in the file. Locking
  copies the blocks of the current piece into the field; the occupied cell is the
  \<^verbatim>\<open>'#'\<close> that \<^verbatim>\<open>drawGrid\<close> draws as a filled cell. A block outside the grid would be
  written outside the vectors.
\<close>

fun lockBlocks :: "char list list \<Rightarrow> Point list \<Rightarrow> error + char list list" where
  "lockBlocks g [] = Inr g"
| "lockBlocks g (block # rest) =
     (case vector_at g (py block) of
        Inl e \<Rightarrow> Inl e
      | Inr row \<Rightarrow>
          (case vector_at row (px block) of
             Inl e \<Rightarrow> Inl e
           | Inr cell \<Rightarrow>
               lockBlocks (g[nat (sint (py block)) := row[nat (sint (px block)) := CHR ''#'']])
                 rest))"

text \<open>
  Modelled from the spec: the lock step on the game (no function of the file), the
  blocks of the current piece copied into its grid.
\<close>

definition lockPiece :: "TetrisGame \<Rightarrow> error + TetrisGame" where
  "lockPiece g =
     (case lockBlocks (grid g) (blocks (currentPiece g)) of
        Inl e \<Rightarrow> Inl e
      | Inr gr \<Rightarrow> Inr (g\<lparr>grid := gr\<rparr>))"

text \<open>
  Modelled from the spec: the body of \<^verbatim>\<open>TetrisGame::clearLines\<close> is missing. The new
  row inserted at the top is empty: one blank for each column.
\<close>

definition emptyRow :: "char list" where
  "emptyRow = replicate (nat GRID_WIDTH) CHR '' ''"

text \<open>
  Modelled from the spec (\<^verbatim>\<open>clearLines\<close>, no body): a row is full if every cell in it is
  occupied, that is, no blank, as \<open>checkCollision\<close> reads the cells.
\<close>

definition isFullRow :: "char list \<Rightarrow> bool" where
  "isFullRow row = list_all (\<lambda>cell. cell \<noteq> CHR '' '') row"

text \<open>
  Modelled from the spec (\<^verbatim>\<open>clearLines\<close>, no body): removing row \<open>y\<close> shifts all rows above
  it down by one and inserts a new empty row at the top.
\<close>

definition removeRow :: "nat \<Rightarrow> char list list \<Rightarrow> char list list" where
  "removeRow y g = emptyRow # take y g @ drop (Suc y) g"

text \<open>
  Modelled from the spec (\<^verbatim>\<open>clearLines\<close>, no body): the scan at row \<open>y\<close>, on the field so
  far and the count so far.
\<close>

definition clearStep :: "nat \<Rightarrow> char list list \<times> nat \<Rightarrow> char list list \<times> nat" where
  "clearStep y s =
     (if isFullRow (fst s ! y) then (removeRow y (fst s), Suc (snd s)) else s)"

text \<open>
  Modelled from the spec: \<^verbatim>\<open>TetrisGame::clearLines\<close> (no body). The pass scans the rows
  from the top and removes every full row; it returns the field and the count of rows
  cleared (the declaration returns \<^verbatim>\<open>void\<close>; the specification has the count go to the
  scoring).
\<close>

definition clearLines :: "char list list \<Rightarrow> char list list \<times> nat" where
  "clearLines g = fold clearStep [0..<length g] (g, 0)"

text \<open>
  Modelled from the spec: the score table of \<^verbatim>\<open>TetrisGame::updateScore\<close> (no body): the
  base 40, 100, 300, 1200 for 1, 2, 3, 4 lines and no points for 0 lines (nor for a
  count the table does not have).
\<close>

definition lineScore :: "nat \<Rightarrow> int32" where
  "lineScore lines =
     (if lines = 1 then 40 else if lines = 2 then 100 else if lines = 3 then 300
      else if lines = 4 then 1200 else 0)"

text \<open>
  Modelled from the spec: \<^verbatim>\<open>TetrisGame::updateScore\<close> (no body). The points are
  \<open>base \<times> (level + 1)\<close>, and the total of cleared lines accumulates. \<open>lines\<close> is the count
  of rows the clearing pass returned.
\<close>

definition updateScore :: "nat \<Rightarrow> TetrisGame \<Rightarrow> TetrisGame" where
  "updateScore lines g =
     g\<lparr>score := score g + lineScore lines * (level g + 1),
       linesCleared := linesCleared g + of_nat lines\<rparr>"

text \<open>
  Modelled from the spec: the body of \<^verbatim>\<open>TetrisGame::updateLevel\<close> is missing. The level
  increases by a fixed policy as lines accumulate; the threshold is a tuning constant
  outside the specification, so the test \<open>threshold\<close> (on the values of the total of
  cleared lines and of the level) is a parameter.
\<close>

definition updateLevel :: "(int \<Rightarrow> int \<Rightarrow> bool) \<Rightarrow> TetrisGame \<Rightarrow> TetrisGame" where
  "updateLevel threshold g =
     (if threshold (sint (linesCleared g)) (sint (level g)) then g\<lparr>level := level g + 1\<rparr>
      else g)"

text \<open>
  Modelled from the spec: what follows a lock (no function of the file): the full rows
  are cleared, then the score and the level are updated.
\<close>

definition clearAndScore :: "(int \<Rightarrow> int \<Rightarrow> bool) \<Rightarrow> TetrisGame \<Rightarrow> TetrisGame" where
  "clearAndScore threshold g =
     (let cleared = clearLines (grid g)
      in updateLevel threshold (updateScore (snd cleared) (g\<lparr>grid := fst cleared\<rparr>)))"

text \<open>
  Modelled from the spec: the body of \<^verbatim>\<open>TetrisGame::updateGrid\<close> is missing. Gravity
  moves the piece down by one row; if that candidate is illegal the piece is locked, the
  full rows are cleared, the score and the level are updated and a new piece is spawned
  (\<open>r\<close> is the value of \<^verbatim>\<open>std::rand()\<close> then). The timer that decides when gravity applies
  is outside the model.
\<close>

definition updateGrid :: "(int \<Rightarrow> int \<Rightarrow> bool) \<Rightarrow> nat \<Rightarrow> TetrisGame \<Rightarrow> error + TetrisGame" where
  "updateGrid threshold r g =
     (case checkCollision (grid g) (getMovedShape (currentPiece g) 0 1) of
        Inl e \<Rightarrow> Inl e
      | Inr c \<Rightarrow>
          if \<not> c then Inr (g\<lparr>currentPiece := Tetromino_move (currentPiece g) 0 1\<rparr>)
          else (case lockPiece g of
                  Inl e \<Rightarrow> Inl e
                | Inr g1 \<Rightarrow> generateNewPiece r (clearAndScore threshold g1)))"

text \<open>
  Modelled from the spec: the body of \<^verbatim>\<open>TetrisGame::checkGameOver\<close> is missing. The
  specification has one condition that ends the game, the collision of the piece with
  the field at its spawn position; the check sets the flag if \<open>checkCollision\<close> is true on
  the blocks of the current piece.
\<close>

definition checkGameOver :: "TetrisGame \<Rightarrow> error + TetrisGame" where
  "checkGameOver g =
     (case checkCollision (grid g) (blocks (currentPiece g)) of
        Inl e \<Rightarrow> Inl e
      | Inr c \<Rightarrow> Inr (if c then g\<lparr>gameOver := True\<rparr> else g))"

text \<open>
  Modelled from the spec: the body of \<^verbatim>\<open>TetrisGame::pauseGame\<close> is missing. The pause
  input takes the game from running to paused and back.
\<close>

definition pauseGame :: "TetrisGame \<Rightarrow> TetrisGame" where
  "pauseGame g = g\<lparr>paused := \<not> paused g\<rparr>"

text \<open>
  The operations of the game, one by one and in sequence: the moves and the rotation,
  gravity (with the value \<^verbatim>\<open>std::rand()\<close> returns if a piece is spawned), the steps
  gravity is made of, the game-over check and the pause. While the game is paused, the
  moves, the rotation and gravity do nothing. A sequence stops at the first error.
\<close>

datatype game_op =
    MoveLeft | MoveRight | SoftDrop | RotateCW | Gravity nat
  | Lock | Clear | ScoreUpdate nat | LevelUpdate | Spawn nat
  | CheckGameOver | Pause

fun apply_game_op :: "(int \<Rightarrow> int \<Rightarrow> bool) \<Rightarrow> game_op \<Rightarrow> TetrisGame \<Rightarrow> error + TetrisGame" where
  "apply_game_op th MoveLeft g = (if paused g then Inr g else movePieceLeft g)"
| "apply_game_op th MoveRight g = (if paused g then Inr g else movePieceRight g)"
| "apply_game_op th SoftDrop g = (if paused g then Inr g else movePieceDown g)"
| "apply_game_op th RotateCW g = (if paused g then Inr g else rotatePiece g)"
| "apply_game_op th (Gravity r) g = (if paused g then Inr g else updateGrid th r g)"
| "apply_game_op th Lock g = lockPiece g"
| "apply_game_op th Clear g = Inr (g\<lparr>grid := fst (clearLines (grid g))\<rparr>)"
| "apply_game_op th (ScoreUpdate lines) g = Inr (updateScore lines g)"
| "apply_game_op th LevelUpdate g = Inr (updateLevel th g)"
| "apply_game_op th (Spawn r) g = generateNewPiece r g"
| "apply_game_op th CheckGameOver g = checkGameOver g"
| "apply_game_op th Pause g = Inr (pauseGame g)"

fun run_game_ops :: "(int \<Rightarrow> int \<Rightarrow> bool) \<Rightarrow> game_op list \<Rightarrow> TetrisGame \<Rightarrow> error + TetrisGame" where
  "run_game_ops th [] g = Inr g"
| "run_game_ops th (a # as) g =
     (case apply_game_op th a g of Inl e \<Rightarrow> Inl e | Inr g' \<Rightarrow> run_game_ops th as g')"

text \<open>
  The operations of play: every operation but the lock and the clear on their own,
  which the game runs only inside gravity, between the failed step down and the spawn.
\<close>

fun play_op :: "game_op \<Rightarrow> bool" where
  "play_op Lock = False"
| "play_op Clear = False"
| "play_op a = True"

text \<open>
  The range of the 32-bit counters. An operation fits a state if the sums it forms stay
  at or below \<open>INT_MAX\<close> as integers: the score plus the points, the total plus the lines
  cleared, the level plus one when the threshold is reached. A sequence fits if each of
  its operations fits the state it is applied to.
\<close>

definition INT_MAX :: int where
  "INT_MAX = 2147483647"

definition scoreFits :: "nat \<Rightarrow> TetrisGame \<Rightarrow> bool" where
  "scoreFits lines g =
     (sint (score g) + sint (lineScore lines) * (sint (level g) + 1) \<le> INT_MAX
      \<and> sint (linesCleared g) + int lines \<le> INT_MAX)"

definition levelFits :: "(int \<Rightarrow> int \<Rightarrow> bool) \<Rightarrow> TetrisGame \<Rightarrow> bool" where
  "levelFits threshold g =
     (if threshold (sint (linesCleared g)) (sint (level g)) then sint (level g) + 1 \<le> INT_MAX
      else True)"

definition clearAndScoreFits :: "(int \<Rightarrow> int \<Rightarrow> bool) \<Rightarrow> TetrisGame \<Rightarrow> bool" where
  "clearAndScoreFits threshold g =
     (let cleared = clearLines (grid g); g1 = g\<lparr>grid := fst cleared\<rparr>
      in scoreFits (snd cleared) g1 \<and> levelFits threshold (updateScore (snd cleared) g1))"

fun op_fits :: "(int \<Rightarrow> int \<Rightarrow> bool) \<Rightarrow> game_op \<Rightarrow> TetrisGame \<Rightarrow> bool" where
  "op_fits th (ScoreUpdate lines) g = scoreFits lines g"
| "op_fits th LevelUpdate g = levelFits th g"
| "op_fits th (Gravity r) g =
     (if paused g then True
      else (case checkCollision (grid g) (getMovedShape (currentPiece g) 0 1) of
              Inl e \<Rightarrow> True
            | Inr c \<Rightarrow>
                if \<not> c then True
                else (case lockPiece g of
                        Inl e \<Rightarrow> True
                      | Inr g1 \<Rightarrow> clearAndScoreFits th g1)))"
| "op_fits th a g = True"

fun run_fits :: "(int \<Rightarrow> int \<Rightarrow> bool) \<Rightarrow> game_op list \<Rightarrow> TetrisGame \<Rightarrow> bool" where
  "run_fits th [] g = True"
| "run_fits th (a # as) g =
     (op_fits th a g
      \<and> (case apply_game_op th a g of Inl e \<Rightarrow> True | Inr g' \<Rightarrow> run_fits th as g'))"

subsection \<open>Sample states\<close>

text \<open>
  States and parameters at which the theorems below are instantiated: a level policy
  (one level every four lines), a game whose top left cell is occupied, a game whose
  piece rests on a stack that reaches row 1, the game after the constructor drew 0, and
  a field whose rows 5 and 7 are the only full ones.
\<close>

definition everyFourLines :: "int \<Rightarrow> int \<Rightarrow> bool" where
  "everyFourLines n lvl = (4 * lvl \<le> n)"

definition blockedGame :: TetrisGame where
  "blockedGame = initializers\<lparr>grid := ''#         '' # replicate 19 emptyRow\<rparr>"

definition stackedGame :: TetrisGame where
  "stackedGame =
     initializers
       \<lparr>grid := emptyRow # ''####      '' # replicate 18 ''#         '',
        currentPiece := new_Tetromino T_I\<rparr>"

definition firstGame :: TetrisGame where
  "firstGame = initializers\<lparr>currentPiece := new_Tetromino T_I\<rparr>"

definition rows_5_7_full :: "char list list" where
  "rows_5_7_full =
     [''          '', ''          '', ''          '', ''          '', ''   #      '',
      ''##########'', ''#  #      '', ''##########'', ''#### #####'', ''#### #####'',
      ''#### #####'', ''#### #####'', ''#### #####'', ''#### #####'', ''#### #####'',
      ''#### #####'', ''#### #####'', ''#### #####'', ''#### #####'', ''#### #####'']"

section \<open>Pieces\<close>

lemma rotate_block_four: "rotate_block (rotate_block (rotate_block (rotate_block b))) = b"
  by (cases b) (simp add: rotate_block_def)

lemma apply_piece_op_rotation: "rotation (apply_piece_op a p) = rotation p"
  by (cases a) (simp_all add: Tetromino_rotate_def Tetromino_move_def)

lemma apply_piece_op_ttype: "ttype (apply_piece_op a p) = ttype p"
  by (cases a) (simp_all add: Tetromino_rotate_def Tetromino_move_def)

lemma fold_piece_op_rotation: "rotation (fold apply_piece_op ops p) = rotation p"
  by (induction ops arbitrary: p) (simp_all add: apply_piece_op_rotation)

text \<open>
  C3: four calls of \<open>rotate\<close> in a row give the piece back, whatever its blocks are:
  the transform \<open>(x, y) \<mapsto> (-y, x)\<close> composed four times is the identity on every block,
  also at the ends of the 32-bit range, where the negation wraps.
\<close>

theorem rotate_four_times:
  "Tetromino_rotate (Tetromino_rotate (Tetromino_rotate (Tetromino_rotate p))) = p
   \<and> (rotate_block \<circ> rotate_block \<circ> rotate_block \<circ> rotate_block) = id"
proof
  have "map (rotate_block \<circ> rotate_block \<circ> rotate_block \<circ> rotate_block) (blocks p) = blocks p"
    by (rule map_idI) (simp add: rotate_block_four)
  then show "Tetromino_rotate (Tetromino_rotate (Tetromino_rotate (Tetromino_rotate p))) = p"
    by (simp add: Tetromino_rotate_def comp_assoc)
next
  show "(rotate_block \<circ> rotate_block \<circ> rotate_block \<circ> rotate_block) = id"
    by (rule ext) (simp add: rotate_block_four)
qed

text \<open>
  C7: constructing a piece of each of the seven types I, O, T, S, Z, J, L gives the four
  points of that type's row of the shape table, in the table's order, and rotation 0.
\<close>

theorem new_Tetromino_base_layout:
  "new_Tetromino T_I =
     \<lparr>ttype = T_I, blocks = [Point 0 0, Point 1 0, Point 2 0, Point 3 0], rotation = 0\<rparr>
   \<and> new_Tetromino T_O =
     \<lparr>ttype = T_O, blocks = [Point 0 0, Point 1 0, Point 0 1, Point 1 1], rotation = 0\<rparr>
   \<and> new_Tetromino T_T =
     \<lparr>ttype = T_T, blocks = [Point 0 0, Point 1 0, Point 2 0, Point 1 1], rotation = 0\<rparr>
   \<and> new_Tetromino T_S =
     \<lparr>ttype = T_S, blocks = [Point 1 0, Point 2 0, Point 0 1, Point 1 1], rotation = 0\<rparr>
   \<and> new_Tetromino T_Z =
     \<lparr>ttype = T_Z, blocks = [Point 0 0, Point 1 0, Point 1 1, Point 2 1], rotation = 0\<rparr>
   \<and> new_Tetromino T_J =
     \<lparr>ttype = T_J, blocks = [Point 0 0, Point 0 1, Point 1 1, Point 2 1], rotation = 0\<rparr>
   \<and> new_Tetromino T_L =
     \<lparr>ttype = T_L, blocks = [Point 2 0, Point 0 1, Point 1 1, Point 2 1], rotation = 0\<rparr>
   \<and> length (blocks (new_Tetromino T_I)) = 4
   \<and> length (blocks (new_Tetromino T_O)) = 4
   \<and> length (blocks (new_Tetromino T_T)) = 4
   \<and> length (blocks (new_Tetromino T_S)) = 4
   \<and> length (blocks (new_Tetromino T_Z)) = 4
   \<and> length (blocks (new_Tetromino T_J)) = 4
   \<and> length (blocks (new_Tetromino T_L)) = 4"
  by (simp add: new_Tetromino_def baseShapes_def)

text \<open>
  C10: no sequence of \<open>rotate\<close> and \<open>move\<close> calls changes the rotation field of a piece:
  after any such sequence on a freshly constructed piece the field is still 0, the value
  the constructor gave it.
\<close>

theorem rotation_field_stays_zero:
  "rotation (apply_piece_ops ops (new_Tetromino t)) = 0
   \<and> rotation (apply_piece_ops ops p) = rotation p
   \<and> rotation (Tetromino_rotate p) = rotation p
   \<and> rotation (Tetromino_move p dx dy) = rotation p"
  by (simp add: apply_piece_ops_def fold_piece_op_rotation new_Tetromino_def Tetromino_rotate_def Tetromino_move_def)

section \<open>The random piece\<close>

lemma getRandomPieceType_cases:
  "getRandomPieceType r \<in> {Some T_I, Some T_O, Some T_T, Some T_S, Some T_Z, Some T_J, Some T_L}"
proof -
  have "r mod 7 < 7" by simp
  then have "r mod 7 = 0 \<or> r mod 7 = 1 \<or> r mod 7 = 2 \<or> r mod 7 = 3 \<or> r mod 7 = 4
    \<or> r mod 7 = 5 \<or> r mod 7 = 6"
    by linarith
  then show ?thesis
    unfolding getRandomPieceType_def TetrominoType_of_int_def by auto
qed

text \<open>
  C9: whatever \<^verbatim>\<open>std::rand()\<close> returns, \<open>getRandomPieceType\<close> yields one of the seven
  real types I, O, T, S, Z, J, L and never \<open>NONE\<close>, so the piece constructed from it
  has the four blocks of a shape.
\<close>

theorem getRandomPieceType_real_piece:
  "\<exists>t. getRandomPieceType r = Some t \<and> t \<in> {T_I, T_O, T_T, T_S, T_Z, T_J, T_L} \<and> t \<noteq> NONE
     \<and> length (blocks (new_Tetromino t)) = 4"
proof -
  from getRandomPieceType_cases [of r]
  obtain t where t: "getRandomPieceType r = Some t" "t \<in> {T_I, T_O, T_T, T_S, T_Z, T_J, T_L}"
    by auto
  from t(2) have "t \<noteq> NONE" "length (blocks (new_Tetromino t)) = 4"
    by (auto simp add: new_Tetromino_def baseShapes_def)
  with t show ?thesis by blast
qed

section \<open>Collisions\<close>

lemma grid_wf_row: "grid_wf g \<Longrightarrow> i < 20 \<Longrightarrow> length (g ! i) = 10"
  by (simp add: grid_wf_def GRID_WIDTH_def GRID_HEIGHT_def list_all_length)

lemma grid_wf_emptyGrid: "grid_wf emptyGrid"
  by (simp add: grid_wf_def emptyGrid_def list_all_length)

lemma emptyGrid_not_occupied:
  "0 \<le> sint (py b) \<Longrightarrow> sint (py b) < 20 \<Longrightarrow> 0 \<le> sint (px b) \<Longrightarrow> sint (px b) < 10
   \<Longrightarrow> \<not> occupied emptyGrid b"
  by (simp add: occupied_def emptyGrid_def GRID_WIDTH_def GRID_HEIGHT_def)

text \<open>
  On the 20 by 10 grid, and for a candidate with no block above the field within the
  columns, \<open>checkCollision\<close> returns, and returns true exactly if some block is outside
  the columns, at or below the bottom, or on an occupied cell.
\<close>

lemma checkCollision_within:
  assumes "grid_wf g" and "list_all (\<lambda>b. \<not> above_field b) bs"
  shows "checkCollision g bs = Inr (list_ex (\<lambda>b. out_of_bounds b \<or> occupied g b) bs)"
  using assms
proof (induction bs)
  case Nil
  then show ?case by simp
next
  case (Cons b bs)
  show ?case
  proof (cases "out_of_bounds b")
    case True
    then show ?thesis by (auto simp add: out_of_bounds_def)
  next
    case False
    then have x: "0 \<le> sint (px b)" "nat (sint (px b)) < 10"
      and y: "sint (py b) < 20"
      by (auto simp add: out_of_bounds_def GRID_WIDTH_def GRID_HEIGHT_def)
    from x Cons.prems(2) have y0: "0 \<le> sint (py b)"
      by (auto simp add: above_field_def GRID_WIDTH_def)
    from y y0 have yn: "nat (sint (py b)) < 20" by simp
    have len: "length g = 20"
      using Cons.prems(1) by (simp add: grid_wf_def GRID_HEIGHT_def)
    have row: "length (g ! nat (sint (py b))) = 10"
      using Cons.prems(1) yn by (rule grid_wf_row)
    from Cons.IH Cons.prems
    have IH: "checkCollision g bs = Inr (list_ex (\<lambda>b. out_of_bounds b \<or> occupied g b) bs)"
      by simp
    show ?thesis
      using False x y0 yn len row IH
      by (simp add: vector_at_def occupied_def out_of_bounds_def)
  qed
qed

text \<open>On the empty field a candidate inside the grid is legal.\<close>

lemma checkCollision_emptyGrid_inside:
  assumes "list_all (\<lambda>b. 0 \<le> sint (px b) \<and> sint (px b) < GRID_WIDTH
                         \<and> 0 \<le> sint (py b) \<and> sint (py b) < GRID_HEIGHT) bs"
  shows "checkCollision emptyGrid bs = Inr False"
proof -
  have a: "list_all (\<lambda>b. \<not> above_field b) bs"
    using assms by (induction bs) (simp_all add: above_field_def)
  have b: "\<not> list_ex (\<lambda>b. out_of_bounds b \<or> occupied emptyGrid b) bs"
    using assms
    by (induction bs)
      (simp_all add: out_of_bounds_def emptyGrid_not_occupied GRID_WIDTH_def GRID_HEIGHT_def)
  show ?thesis
    using checkCollision_within [OF grid_wf_emptyGrid a] b by simp
qed

text \<open>
  A candidate with a block above the field within the columns is never found legal:
  the loop returns true at an earlier block or reads the row that is not there.
\<close>

lemma checkCollision_above_field:
  assumes "list_ex above_field bs"
  shows "checkCollision g bs = Inr True \<or> checkCollision g bs = Inl OutOfRange"
  using assms
proof (induction bs)
  case Nil
  then show ?case by simp
next
  case (Cons b bs)
  show ?case
  proof (cases "above_field b")
    case True
    then show ?thesis
      by (simp add: above_field_def vector_at_def GRID_WIDTH_def GRID_HEIGHT_def)
  next
    case False
    with Cons have "checkCollision g bs = Inr True \<or> checkCollision g bs = Inl OutOfRange"
      by simp
    then show ?thesis
      by (auto simp add: vector_at_def split: sum.splits error.splits)
  qed
qed

text \<open>
  C1: \<open>checkCollision\<close> is to return true for every candidate with a block outside the
  columns or at or below the bottom. The J piece after two calls of \<open>rotate\<close> has the
  blocks (0, 0), (0, -1), (-1, -1), (-2, -1): two of them are left of the field, and on
  the empty field the loop reaches \<^verbatim>\<open>grid[-1]\<close> at the second block, before it tests
  them. The call reads outside the grid and returns nothing.
\<close>

theorem checkCollision_row_above_before_bounds:
  "blocks (Tetromino_rotate (Tetromino_rotate (new_Tetromino T_J))) =
     [Point 0 0, Point 0 (- 1), Point (- 1) (- 1), Point (- 2) (- 1)]
   \<and> out_of_bounds (Point (- 1) (- 1))
   \<and> checkCollision emptyGrid [Point 0 0, Point 0 (- 1), Point (- 1) (- 1), Point (- 2) (- 1)] =
       Inl OutOfRange"
  by (simp add: Tetromino_rotate_def new_Tetromino_def baseShapes_def rotate_block_def
      out_of_bounds_def emptyGrid_def GRID_WIDTH_def GRID_HEIGHT_def vector_at_def)

text \<open>
  C2: a candidate whose blocks are all within the columns and above the bottom, some of
  them above the field, is to be legal without any read outside the field. The I piece
  one row above its spawn position is such a candidate; on the empty field the first
  block already indexes the grid with -1, outside the vector.
\<close>

theorem checkCollision_negative_row_out_of_range:
  "getMovedShape (new_Tetromino T_I) 0 (- 1) =
     [Point 0 (- 1), Point 1 (- 1), Point 2 (- 1), Point 3 (- 1)]
   \<and> vector_at emptyGrid (- 1) = Inl OutOfRange
   \<and> checkCollision emptyGrid [Point 0 (- 1), Point 1 (- 1), Point 2 (- 1), Point 3 (- 1)] =
       Inl OutOfRange"
  by (simp add: getMovedShape_def move_block_def new_Tetromino_def baseShapes_def
      emptyGrid_def GRID_WIDTH_def GRID_HEIGHT_def vector_at_def)

section \<open>Spawning\<close>

lemma new_Tetromino_blocks_inside:
  "list_all (\<lambda>b. 0 \<le> sint (px b) \<and> sint (px b) < 4 \<and> 0 \<le> sint (py b) \<and> sint (py b) < 2)
     (blocks (new_Tetromino t))"
  by (cases t) (simp_all add: new_Tetromino_def baseShapes_def)

lemma list_all_weaken: "list_all P xs \<Longrightarrow> (\<And>x. P x \<Longrightarrow> Q x) \<Longrightarrow> list_all Q xs"
  by (induction xs) simp_all

lemma generateNewPiece_wf:
  assumes "grid_wf (grid g)"
  shows "\<exists>t c. getRandomPieceType r = Some t \<and> t \<noteq> NONE
      \<and> checkCollision (grid g) (blocks (new_Tetromino t)) = Inr c
      \<and> generateNewPiece r g =
          Inr (g\<lparr>currentPiece := new_Tetromino t, gameOver := gameOver g \<or> c\<rparr>)"
proof -
  from getRandomPieceType_cases [of r]
  obtain t where t: "getRandomPieceType r = Some t" "t \<noteq> NONE"
    by auto
  have "list_all (\<lambda>b. \<not> above_field b) (blocks (new_Tetromino t))"
    by (rule list_all_weaken [OF new_Tetromino_blocks_inside]) (simp add: above_field_def)
  from checkCollision_within [OF assms this]
  obtain c where c: "checkCollision (grid g) (blocks (new_Tetromino t)) = Inr c"
    by blast
  have "generateNewPiece r g =
      Inr (g\<lparr>currentPiece := new_Tetromino t, gameOver := gameOver g \<or> c\<rparr>)"
    using t c by (cases c) (simp_all add: generateNewPiece_def)
  with t c show ?thesis by blast
qed

section \<open>Clearing lines\<close>

lemma not_full_emptyRow: "\<not> isFullRow emptyRow"
  by (simp add: isFullRow_def emptyRow_def GRID_WIDTH_def list_all_iff)

lemma emptyRow_blanks: "emptyRow = ''          ''"
  by (simp add: emptyRow_def GRID_WIDTH_def numeral_eq_Suc)

text \<open>The state of the pass after the rows above row \<open>k\<close>.\<close>

lemma clearLines_prefix:
  assumes "k \<le> length g"
  shows "fold clearStep [0..<k] (g, 0) =
     (replicate (length (filter isFullRow (take k g))) emptyRow
        @ filter (\<lambda>row. \<not> isFullRow row) (take k g) @ drop k g,
      length (filter isFullRow (take k g)))"
  using assms
proof (induction k)
  case 0
  then show ?case by simp
next
  case (Suc k)
  then have k: "k < length g" by simp
  let ?n = "length (filter isFullRow (take k g))"
  let ?kept = "filter (\<lambda>row. \<not> isFullRow row) (take k g)"
  let ?s = "(replicate ?n emptyRow @ ?kept @ drop k g, ?n)"
  have IH: "fold clearStep [0..<k] (g, 0) = ?s"
    using Suc by simp
  have len: "length (replicate ?n emptyRow @ ?kept) = k"
    using k sum_length_filter_compl [of isFullRow "take k g"] by simp
  have at: "fst ?s ! k = g ! k"
    using len k by (simp add: nth_append flip: append_assoc)
  have tk: "take (Suc k) g = take k g @ [g ! k]"
    using k by (simp add: take_Suc_conv_app_nth)
  have dk: "drop k g = g ! k # drop (Suc k) g"
    using k by (simp add: Cons_nth_drop_Suc)
  have "clearStep k ?s =
     (replicate (length (filter isFullRow (take (Suc k) g))) emptyRow
        @ filter (\<lambda>row. \<not> isFullRow row) (take (Suc k) g) @ drop (Suc k) g,
      length (filter isFullRow (take (Suc k) g)))"
  proof (cases "isFullRow (g ! k)")
    case True
    have "take k (replicate ?n emptyRow @ ?kept @ drop k g) = replicate ?n emptyRow @ ?kept"
      using len by (simp flip: append_assoc)
    moreover have "drop (Suc k) (replicate ?n emptyRow @ ?kept @ drop k g) = drop (Suc k) g"
      using len dk by (simp flip: append_assoc)
    ultimately show ?thesis
      using True at tk by (simp add: clearStep_def removeRow_def)
  next
    case False
    then show ?thesis
      using at tk dk by (simp add: clearStep_def)
  qed
  then show ?case
    using IH by simp
qed

lemma clearLines_filter:
  "clearLines g =
     (replicate (length (filter isFullRow g)) emptyRow @ filter (\<lambda>row. \<not> isFullRow row) g,
      length (filter isFullRow g))"
  using clearLines_prefix [of "length g" g] by (simp add: clearLines_def)

lemma filter_none:
  assumes "\<And>i. i < length xs \<Longrightarrow> \<not> P (xs ! i)"
  shows "filter P xs = [] \<and> filter (\<lambda>x. \<not> P x) xs = xs"
proof -
  have "\<forall>x \<in> set xs. \<not> P x"
    using assms by (auto simp add: in_set_conv_nth)
  then show ?thesis
    by (simp add: filter_empty_conv filter_id_conv)
qed

lemma split_rows_5_7:
  assumes "length g = 20"
  shows "g = take 5 g @ g ! 5 # g ! 6 # g ! 7 # drop 8 g"
proof -
  have "g = take 5 g @ drop 5 g" by simp
  moreover have "drop 5 g = g ! 5 # drop 6 g"
    using assms by (simp add: Cons_nth_drop_Suc [symmetric])
  moreover have "drop 6 g = g ! 6 # drop 7 g"
    using assms by (simp add: Cons_nth_drop_Suc [symmetric])
  moreover have "drop 7 g = g ! 7 # drop 8 g"
    using assms by (simp add: Cons_nth_drop_Suc [symmetric])
  ultimately show ?thesis by simp
qed

lemma clearLines_rows_5_7:
  assumes len: "length g = 20"
    and f5: "isFullRow (g ! 5)" and f7: "isFullRow (g ! 7)"
    and rest: "\<And>y. y < 20 \<Longrightarrow> y \<noteq> 5 \<Longrightarrow> y \<noteq> 7 \<Longrightarrow> \<not> isFullRow (g ! y)"
  shows "clearLines g = (emptyRow # emptyRow # take 5 g @ g ! 6 # drop 8 g, 2)"
proof -
  have top: "filter isFullRow (take 5 g) = [] \<and> filter (\<lambda>x. \<not> isFullRow x) (take 5 g) = take 5 g"
    using len rest by (intro filter_none) simp
  have bot: "filter isFullRow (drop 8 g) = [] \<and> filter (\<lambda>x. \<not> isFullRow x) (drop 8 g) = drop 8 g"
    using len rest by (intro filter_none) simp
  have n6: "\<not> isFullRow (g ! 6)"
    using rest [of 6] by simp
  have full: "filter isFullRow g = [g ! 5, g ! 7]"
    by (subst split_rows_5_7 [OF len]) (simp add: top bot f5 f7 n6)
  have kept: "filter (\<lambda>x. \<not> isFullRow x) g = take 5 g @ g ! 6 # drop 8 g"
    by (subst split_rows_5_7 [OF len]) (simp add: top bot f5 f7 n6)
  show ?thesis
    by (simp add: clearLines_filter full kept)
qed

text \<open>
  C5: one pass of \<open>clearLines\<close> removes exactly the full rows, keeps the other rows in
  their order below as many empty rows at the top, and returns the number of rows it
  removed; the field keeps its height and no full row is left. For a field of 20 rows
  of which rows 5 and 7 are the only full ones, the pass gives two empty rows, rows 0 to
  4 (shifted down by two), row 6 (shifted down by one) and rows 8 to 19 in place, and
  returns 2.
\<close>

theorem clearLines_single_pass:
  "clearLines g =
     (replicate (length (filter isFullRow g)) emptyRow @ filter (\<lambda>row. \<not> isFullRow row) g,
      length (filter isFullRow g))
   \<and> length (fst (clearLines g)) = length g
   \<and> list_all (\<lambda>row. \<not> isFullRow row) (fst (clearLines g))
   \<and> (length g = 20 \<and> isFullRow (g ! 5) \<and> isFullRow (g ! 7)
        \<and> (\<forall>y < 20. y \<noteq> 5 \<and> y \<noteq> 7 \<longrightarrow> \<not> isFullRow (g ! y))
      \<longrightarrow> clearLines g = (emptyRow # emptyRow # take 5 g @ g ! 6 # drop 8 g, 2))"
proof (intro conjI impI)
  show "clearLines g =
     (replicate (length (filter isFullRow g)) emptyRow @ filter (\<lambda>row. \<not> isFullRow row) g,
      length (filter isFullRow g))"
    by (rule clearLines_filter)
  show "length (fst (clearLines g)) = length g"
    using sum_length_filter_compl [of isFullRow g] by (simp add: clearLines_filter)
  show "list_all (\<lambda>row. \<not> isFullRow row) (fst (clearLines g))"
    by (auto simp add: clearLines_filter list_all_iff not_full_emptyRow)
next
  assume "length g = 20 \<and> isFullRow (g ! 5) \<and> isFullRow (g ! 7)
        \<and> (\<forall>y < 20. y \<noteq> 5 \<and> y \<noteq> 7 \<longrightarrow> \<not> isFullRow (g ! y))"
  then show "clearLines g = (emptyRow # emptyRow # take 5 g @ g ! 6 # drop 8 g, 2)"
    by (intro clearLines_rows_5_7) simp_all
qed

theorem clearLines_single_pass_witness:
  "length rows_5_7_full = 20 \<and> isFullRow (rows_5_7_full ! 5) \<and> isFullRow (rows_5_7_full ! 7)
   \<and> \<not> isFullRow (rows_5_7_full ! 6)
   \<and> clearLines rows_5_7_full =
     ([''          '', ''          '',
       ''          '', ''          '', ''          '', ''          '', ''   #      '',
       ''#  #      '', ''#### #####'', ''#### #####'',
       ''#### #####'', ''#### #####'', ''#### #####'', ''#### #####'', ''#### #####'',
       ''#### #####'', ''#### #####'', ''#### #####'', ''#### #####'', ''#### #####''], 2)"
proof -
  have len: "length rows_5_7_full = 20"
    by (simp add: rows_5_7_full_def)
  have full: "isFullRow (rows_5_7_full ! 5) \<and> isFullRow (rows_5_7_full ! 7)"
    by (simp add: rows_5_7_full_def isFullRow_def)
  have "\<forall>y\<in>set [0..<20]. y \<noteq> 5 \<and> y \<noteq> 7 \<longrightarrow> \<not> isFullRow (rows_5_7_full ! y)"
    by code_simp
  then have others: "\<forall>y < 20. y \<noteq> 5 \<and> y \<noteq> 7 \<longrightarrow> \<not> isFullRow (rows_5_7_full ! y)"
    by simp
  have "clearLines rows_5_7_full =
      (emptyRow # emptyRow # take 5 rows_5_7_full @ rows_5_7_full ! 6 # drop 8 rows_5_7_full, 2)"
    using clearLines_single_pass [of rows_5_7_full] len full others by blast
  moreover have "emptyRow # emptyRow # take 5 rows_5_7_full @ rows_5_7_full ! 6
      # drop 8 rows_5_7_full =
     [''          '', ''          '',
       ''          '', ''          '', ''          '', ''          '', ''   #      '',
       ''#  #      '', ''#### #####'', ''#### #####'',
       ''#### #####'', ''#### #####'', ''#### #####'', ''#### #####'', ''#### #####'',
       ''#### #####'', ''#### #####'', ''#### #####'', ''#### #####'', ''#### #####'']"
    by (simp add: rows_5_7_full_def emptyRow_blanks)
  moreover have "\<not> isFullRow (rows_5_7_full ! 6)"
    by (simp add: rows_5_7_full_def isFullRow_def)
  ultimately show ?thesis
    using len full by simp
qed

section \<open>Scoring\<close>

text \<open>
  C6: the score update adds \<open>base \<times> (level + 1)\<close> with the base 40, 100, 300, 1200 for
  1, 2, 3, 4 lines and nothing for 0 lines: 40, 100, 300, 1200 at level 0 and 80, 200,
  600, 2400 at level 1.
\<close>

theorem updateScore_table:
  "score (updateScore 0 g) = score g
   \<and> score (updateScore 1 g) = score g + 40 * (level g + 1)
   \<and> score (updateScore 2 g) = score g + 100 * (level g + 1)
   \<and> score (updateScore 3 g) = score g + 300 * (level g + 1)
   \<and> score (updateScore 4 g) = score g + 1200 * (level g + 1)
   \<and> score (updateScore 1 (g\<lparr>level := 0\<rparr>)) = score g + 40
   \<and> score (updateScore 2 (g\<lparr>level := 0\<rparr>)) = score g + 100
   \<and> score (updateScore 3 (g\<lparr>level := 0\<rparr>)) = score g + 300
   \<and> score (updateScore 4 (g\<lparr>level := 0\<rparr>)) = score g + 1200
   \<and> score (updateScore 1 (g\<lparr>level := 1\<rparr>)) = score g + 80
   \<and> score (updateScore 2 (g\<lparr>level := 1\<rparr>)) = score g + 200
   \<and> score (updateScore 3 (g\<lparr>level := 1\<rparr>)) = score g + 600
   \<and> score (updateScore 4 (g\<lparr>level := 1\<rparr>)) = score g + 2400"
  by (simp add: updateScore_def lineScore_def)

section \<open>The game-over flag\<close>

text \<open>What the operations leave as it is.\<close>

lemma movePiece_frame:
  "movePiece dx dy g = Inr g' \<Longrightarrow>
     score g' = score g \<and> level g' = level g \<and> linesCleared g' = linesCleared g
     \<and> grid g' = grid g \<and> gameOver g' = gameOver g"
  by (auto simp add: movePiece_def split: sum.splits if_splits)

lemma rotatePiece_frame:
  "rotatePiece g = Inr g' \<Longrightarrow>
     score g' = score g \<and> level g' = level g \<and> linesCleared g' = linesCleared g
     \<and> grid g' = grid g \<and> gameOver g' = gameOver g"
  by (auto simp add: rotatePiece_def split: sum.splits if_splits)

lemma lockPiece_frame:
  "lockPiece g = Inr g' \<Longrightarrow>
     score g' = score g \<and> level g' = level g \<and> linesCleared g' = linesCleared g
     \<and> gameOver g' = gameOver g"
  by (auto simp add: lockPiece_def split: sum.splits)

lemma generateNewPiece_sets:
  assumes "generateNewPiece r g = Inr g'"
  shows "\<exists>t c. getRandomPieceType r = Some t
      \<and> checkCollision (grid g) (blocks (new_Tetromino t)) = Inr c
      \<and> g' = g\<lparr>currentPiece := new_Tetromino t, gameOver := gameOver g \<or> c\<rparr>"
proof -
  from assms obtain t where t: "getRandomPieceType r = Some t"
    by (auto simp add: generateNewPiece_def split: option.splits)
  with assms obtain c where c: "checkCollision (grid g) (blocks (new_Tetromino t)) = Inr c"
    by (auto simp add: generateNewPiece_def Let_def split: sum.splits)
  from assms t c have "g' = g\<lparr>currentPiece := new_Tetromino t, gameOver := gameOver g \<or> c\<rparr>"
    by (cases c) (auto simp add: generateNewPiece_def Let_def)
  with t c show ?thesis by blast
qed

lemma generateNewPiece_frame:
  "generateNewPiece r g = Inr g' \<Longrightarrow>
     score g' = score g \<and> level g' = level g \<and> linesCleared g' = linesCleared g
     \<and> grid g' = grid g"
  by (auto dest: generateNewPiece_sets)

lemma checkGameOver_frame:
  "checkGameOver g = Inr g' \<Longrightarrow>
     score g' = score g \<and> level g' = level g \<and> linesCleared g' = linesCleared g
     \<and> grid g' = grid g \<and> currentPiece g' = currentPiece g"
  by (auto simp add: checkGameOver_def split: sum.splits if_splits)

lemma clearAndScore_gameOver: "gameOver (clearAndScore th g) = gameOver g"
  by (simp add: clearAndScore_def Let_def updateLevel_def updateScore_def)

text \<open>
  An operation that sets the flag spawned a piece, and the blocks of that piece collide
  with the field.
\<close>

lemma spawn_sets_gameOver:
  assumes "generateNewPiece r g = Inr g'" and "\<not> gameOver g" and "gameOver g'"
  shows "\<exists>t. getRandomPieceType r = Some t \<and> currentPiece g' = new_Tetromino t
      \<and> checkCollision (grid g') (blocks (new_Tetromino t)) = Inr True"
proof -
  from generateNewPiece_sets [OF assms(1)]
  obtain t c where t: "getRandomPieceType r = Some t"
    and c: "checkCollision (grid g) (blocks (new_Tetromino t)) = Inr c"
    and g': "g' = g\<lparr>currentPiece := new_Tetromino t, gameOver := gameOver g \<or> c\<rparr>"
    by blast
  from g' assms(2,3) have "c" by simp
  with t c g' show ?thesis by simp
qed

lemma gameOver_set_by_spawn:
  assumes ap: "apply_game_op th a g = Inr g'"
    and off: "\<not> gameOver g" and on: "gameOver g'"
    and legal: "checkCollision (grid g) (blocks (currentPiece g)) = Inr False"
  shows "\<exists>r t. (a = Gravity r \<or> a = Spawn r) \<and> getRandomPieceType r = Some t
      \<and> currentPiece g' = new_Tetromino t
      \<and> checkCollision (grid g') (blocks (new_Tetromino t)) = Inr True"
proof (cases a)
  case MoveLeft
  with ap off on show ?thesis
    by (auto simp add: movePieceLeft_def split: if_splits dest: movePiece_frame)
next
  case MoveRight
  with ap off on show ?thesis
    by (auto simp add: movePieceRight_def split: if_splits dest: movePiece_frame)
next
  case SoftDrop
  with ap off on show ?thesis
    by (auto simp add: movePieceDown_def split: if_splits dest: movePiece_frame)
next
  case RotateCW
  with ap off on show ?thesis
    by (auto split: if_splits dest: rotatePiece_frame)
next
  case (Gravity r)
  with ap off on have np: "\<not> paused g" and u: "updateGrid th r g = Inr g'"
    by (auto split: if_splits)
  show ?thesis
  proof (cases "checkCollision (grid g) (getMovedShape (currentPiece g) 0 1)")
    case (Inl e)
    with u show ?thesis by (simp add: updateGrid_def)
  next
    case (Inr c)
    show ?thesis
    proof (cases c)
      case False
      with u Inr off on show ?thesis by (auto simp add: updateGrid_def)
    next
      case True
      with u Inr obtain g1 where l: "lockPiece g = Inr g1"
        and s: "generateNewPiece r (clearAndScore th g1) = Inr g'"
        by (auto simp add: updateGrid_def split: sum.splits)
      from lockPiece_frame [OF l] off have "\<not> gameOver (clearAndScore th g1)"
        by (simp add: clearAndScore_gameOver)
      from spawn_sets_gameOver [OF s this on] Gravity show ?thesis by blast
    qed
  qed
next
  case Lock
  with ap off on show ?thesis by (auto dest: lockPiece_frame)
next
  case Clear
  with ap off on show ?thesis by auto
next
  case (ScoreUpdate n)
  with ap off on show ?thesis by (auto simp add: updateScore_def)
next
  case LevelUpdate
  with ap off on show ?thesis by (auto simp add: updateLevel_def split: if_splits)
next
  case (Spawn r)
  with ap have "generateNewPiece r g = Inr g'" by simp
  from spawn_sets_gameOver [OF this off on] Spawn show ?thesis by blast
next
  case CheckGameOver
  with ap off on legal show ?thesis by (auto simp add: checkGameOver_def)
next
  case Pause
  with ap off on show ?thesis by (auto simp add: pauseGame_def)
qed

text \<open>
  In play the hypothesis on the piece holds: from the constructor on, and under every
  operation but a lock or a clear on its own, the piece in play is legal as long as the
  game is not over.
\<close>

lemma legal_after_op:
  assumes ap: "apply_game_op th a g = Inr g'" and play: "play_op a"
    and legal: "\<not> gameOver g \<longrightarrow> checkCollision (grid g) (blocks (currentPiece g)) = Inr False"
  shows "\<not> gameOver g' \<longrightarrow> checkCollision (grid g') (blocks (currentPiece g')) = Inr False"
proof (cases a)
  case MoveLeft
  with ap legal show ?thesis
    by (auto simp add: movePieceLeft_def movePiece_def getMovedShape_def Tetromino_move_def
        split: if_splits sum.splits)
next
  case MoveRight
  with ap legal show ?thesis
    by (auto simp add: movePieceRight_def movePiece_def getMovedShape_def Tetromino_move_def
        split: if_splits sum.splits)
next
  case SoftDrop
  with ap legal show ?thesis
    by (auto simp add: movePieceDown_def movePiece_def getMovedShape_def Tetromino_move_def
        split: if_splits sum.splits)
next
  case RotateCW
  with ap legal show ?thesis
    by (auto simp add: rotatePiece_def getRotatedShape_def Tetromino_rotate_def
        split: if_splits sum.splits)
next
  case (Gravity r)
  show ?thesis
  proof (cases "paused g")
    case True
    with ap Gravity legal show ?thesis by simp
  next
    case False
    with ap Gravity have u: "updateGrid th r g = Inr g'" by simp
    show ?thesis
    proof (cases "checkCollision (grid g) (getMovedShape (currentPiece g) 0 1)")
      case (Inl e)
      with u show ?thesis by (simp add: updateGrid_def)
    next
      case (Inr c)
      show ?thesis
      proof (cases c)
        case False
        with u Inr show ?thesis
          by (auto simp add: updateGrid_def getMovedShape_def Tetromino_move_def)
      next
        case True
        with u Inr obtain g1 where "generateNewPiece r (clearAndScore th g1) = Inr g'"
          by (auto simp add: updateGrid_def split: sum.splits)
        from generateNewPiece_sets [OF this] show ?thesis by auto
      qed
    qed
  qed
next
  case Lock
  with play show ?thesis by simp
next
  case Clear
  with play show ?thesis by simp
next
  case (ScoreUpdate n)
  with ap legal show ?thesis by (auto simp add: updateScore_def)
next
  case LevelUpdate
  with ap legal show ?thesis by (auto simp add: updateLevel_def split: if_splits)
next
  case (Spawn r)
  with ap have "generateNewPiece r g = Inr g'" by simp
  from generateNewPiece_sets [OF this] show ?thesis by auto
next
  case CheckGameOver
  with ap legal show ?thesis by (auto simp add: checkGameOver_def split: sum.splits if_splits)
next
  case Pause
  with ap legal show ?thesis by (auto simp add: pauseGame_def)
qed

lemma legal_after_run:
  assumes "run_game_ops th ops g = Inr g'" and "list_all play_op ops"
    and "\<not> gameOver g \<longrightarrow> checkCollision (grid g) (blocks (currentPiece g)) = Inr False"
  shows "\<not> gameOver g' \<longrightarrow> checkCollision (grid g') (blocks (currentPiece g')) = Inr False"
  using assms
proof (induction ops arbitrary: g)
  case Nil
  then show ?case by simp
next
  case (Cons a as)
  from Cons.prems(1) obtain g1 where a: "apply_game_op th a g = Inr g1"
    and r: "run_game_ops th as g1 = Inr g'"
    by (auto split: sum.splits)
  from Cons.prems(2) have p: "play_op a" "list_all play_op as" by simp_all
  from legal_after_op [OF a p(1) Cons.prems(3)] Cons.IH [OF r p(2)] show ?case by blast
qed

lemma legal_after_constructor:
  assumes "new_TetrisGame r = Inr g"
  shows "\<not> gameOver g \<longrightarrow> checkCollision (grid g) (blocks (currentPiece g)) = Inr False"
proof -
  from assms have "generateNewPiece r (initializers\<lparr>grid := emptyGrid\<rparr>) = Inr g"
    by (simp add: new_TetrisGame_def initializeGame_def)
  from generateNewPiece_sets [OF this] show ?thesis by auto
qed

text \<open>The sample states, evaluated.\<close>

lemma grid_wf_blockedGame: "grid_wf (grid blockedGame)"
  by (simp add: blockedGame_def grid_wf_def emptyRow_def GRID_WIDTH_def GRID_HEIGHT_def
      list_all_length nth_Cons')

lemma blockedGame_spawn:
  "getRandomPieceType 0 = Some T_I
   \<and> checkCollision (grid blockedGame) (blocks (new_Tetromino T_I)) = Inr True
   \<and> \<not> gameOver blockedGame"
  by (simp add: getRandomPieceType_def TetrominoType_of_int_def blockedGame_def initializers_def
      new_Tetromino_def baseShapes_def vector_at_def GRID_WIDTH_def GRID_HEIGHT_def)

lemma stackedGame_legal:
  "\<not> gameOver stackedGame
   \<and> checkCollision (grid stackedGame) (blocks (currentPiece stackedGame)) = Inr False"
  by (simp add: stackedGame_def initializers_def new_Tetromino_def baseShapes_def
      vector_at_def emptyRow_def GRID_WIDTH_def GRID_HEIGHT_def)

lemma stackedGame_gravity:
  "apply_game_op everyFourLines (Gravity 0) stackedGame =
     Inr (stackedGame
       \<lparr>grid := ''####      '' # ''####      '' # replicate 18 ''#         '',
        gameOver := True\<rparr>)"
  apply (simp add: updateGrid_def stackedGame_def initializers_def new_Tetromino_def baseShapes_def
      vector_at_def emptyRow_def GRID_WIDTH_def GRID_HEIGHT_def
      getMovedShape_def move_block_def lockPiece_def numeral_eq_Suc)
  apply (simp add: clearAndScore_def clearLines_filter isFullRow_def updateScore_def lineScore_def
      updateLevel_def everyFourLines_def  generateNewPiece_def getRandomPieceType_def TetrominoType_of_int_def
   new_Tetromino_def baseShapes_def vector_at_def GRID_WIDTH_def GRID_HEIGHT_def)
  done

lemma new_TetrisGame_0: "new_TetrisGame 0 = Inr firstGame"
  by (simp add: new_TetrisGame_def initializeGame_def generateNewPiece_def initializers_def
      firstGame_def getRandomPieceType_def TetrominoType_of_int_def new_Tetromino_def
      baseShapes_def emptyGrid_def GRID_WIDTH_def GRID_HEIGHT_def vector_at_def)

lemma firstGame_two_steps:
  "run_game_ops everyFourLines [Gravity 3, MoveRight] firstGame =
     Inr (firstGame\<lparr>currentPiece :=
       \<lparr>ttype = T_I, blocks = [Point 1 1, Point 2 1, Point 3 1, Point 4 1], rotation = 0\<rparr>\<rparr>)"
  by (simp add: updateGrid_def movePieceRight_def movePiece_def getMovedShape_def
      Tetromino_move_def move_block_def firstGame_def initializers_def new_Tetromino_def
      baseShapes_def emptyGrid_def GRID_WIDTH_def GRID_HEIGHT_def vector_at_def)

text \<open>
  C4: on the 20 by 10 grid \<open>generateNewPiece\<close> returns the game with the new piece and
  with the game-over flag set if \<open>checkCollision\<close> is true on the blocks of that piece;
  if it is false the flag keeps the value it had. And this is the only way the flag gets
  set: if any operation of the game (a move, the rotation, gravity, lock, clear, the
  score and level updates, the spawn, the game-over check, the pause) takes a game that
  is not over, with its piece in a legal position, to a game that is over, then the
  operation spawned a piece, by gravity or directly, and \<open>checkCollision\<close> is true on the
  initial blocks of that piece. The piece in play is in a legal position in every game
  that is not over and that the operations of play reach from the constructor.
\<close>

theorem generateNewPiece_gameOver:
  "(grid_wf (grid g) \<longrightarrow>
      (\<exists>t c. getRandomPieceType r = Some t
         \<and> checkCollision (grid g) (blocks (new_Tetromino t)) = Inr c
         \<and> generateNewPiece r g =
             Inr (g\<lparr>currentPiece := new_Tetromino t, gameOver := gameOver g \<or> c\<rparr>)))
   \<and> (apply_game_op th a h = Inr h' \<and> \<not> gameOver h \<and> gameOver h'
        \<and> checkCollision (grid h) (blocks (currentPiece h)) = Inr False \<longrightarrow>
      (\<exists>r' t. (a = Gravity r' \<or> a = Spawn r') \<and> getRandomPieceType r' = Some t
         \<and> currentPiece h' = new_Tetromino t
         \<and> checkCollision (grid h') (blocks (new_Tetromino t)) = Inr True))
   \<and> (new_TetrisGame seed = Inr start \<and> list_all play_op ops \<and> run_game_ops th ops start = Inr k
        \<and> \<not> gameOver k \<longrightarrow>
      checkCollision (grid k) (blocks (currentPiece k)) = Inr False)"
proof (intro conjI impI)
  assume "grid_wf (grid g)"
  from generateNewPiece_wf [OF this, of r]
  show "\<exists>t c. getRandomPieceType r = Some t
         \<and> checkCollision (grid g) (blocks (new_Tetromino t)) = Inr c
         \<and> generateNewPiece r g =
             Inr (g\<lparr>currentPiece := new_Tetromino t, gameOver := gameOver g \<or> c\<rparr>)"
    by blast
next
  assume "apply_game_op th a h = Inr h' \<and> \<not> gameOver h \<and> gameOver h'
        \<and> checkCollision (grid h) (blocks (currentPiece h)) = Inr False"
  then show "\<exists>r' t. (a = Gravity r' \<or> a = Spawn r') \<and> getRandomPieceType r' = Some t
         \<and> currentPiece h' = new_Tetromino t
         \<and> checkCollision (grid h') (blocks (new_Tetromino t)) = Inr True"
    using gameOver_set_by_spawn [of th a h h'] by blast
next
  assume s: "new_TetrisGame seed = Inr start \<and> list_all play_op ops
        \<and> run_game_ops th ops start = Inr k \<and> \<not> gameOver k"
  then have "new_TetrisGame seed = Inr start" by simp
  from legal_after_constructor [OF this] s legal_after_run [of th ops start k]
  show "checkCollision (grid k) (blocks (currentPiece k)) = Inr False"
    by blast
qed

theorem generateNewPiece_gameOver_witness:
  "grid_wf (grid blockedGame)
   \<and> generateNewPiece 0 blockedGame =
       Inr (blockedGame\<lparr>currentPiece := new_Tetromino T_I, gameOver := True\<rparr>)
   \<and> \<not> gameOver stackedGame
   \<and> checkCollision (grid stackedGame) (blocks (currentPiece stackedGame)) = Inr False
   \<and> apply_game_op everyFourLines (Gravity 0) stackedGame =
       Inr (stackedGame
         \<lparr>grid := ''####      '' # ''####      '' # replicate 18 ''#         '',
          gameOver := True\<rparr>)
   \<and> checkCollision (''####      '' # ''####      '' # replicate 18 ''#         '')
        (blocks (new_Tetromino T_I)) = Inr True
   \<and> new_TetrisGame 0 = Inr firstGame
   \<and> run_game_ops everyFourLines [Gravity 3, MoveRight] firstGame =
       Inr (firstGame\<lparr>currentPiece :=
         \<lparr>ttype = T_I, blocks = [Point 1 1, Point 2 1, Point 3 1, Point 4 1], rotation = 0\<rparr>\<rparr>)
   \<and> checkCollision (grid firstGame) [Point 1 1, Point 2 1, Point 3 1, Point 4 1] = Inr False"
proof -
  let ?over = "stackedGame
         \<lparr>grid := ''####      '' # ''####      '' # replicate 18 ''#         '',
          gameOver := True\<rparr>"
  let ?mid = "firstGame\<lparr>currentPiece :=
         \<lparr>ttype = T_I, blocks = [Point 1 1, Point 2 1, Point 3 1, Point 4 1], rotation = 0\<rparr>\<rparr>"
  note inst = generateNewPiece_gameOver [where g = blockedGame and r = 0
      and th = everyFourLines and a = "Gravity 0" and h = stackedGame and h' = "?over"
      and seed = 0 and start = firstGame and ops = "[Gravity 3, MoveRight]" and k = "?mid"]
  have over: "gameOver ?over" by simp
  have play: "list_all play_op [Gravity 3, MoveRight]" by simp
  have mid: "\<not> gameOver ?mid" by (simp add: firstGame_def initializers_def)
  from inst grid_wf_blockedGame blockedGame_spawn
  have a: "generateNewPiece 0 blockedGame =
       Inr (blockedGame\<lparr>currentPiece := new_Tetromino T_I, gameOver := True\<rparr>)"
    by auto
  from inst stackedGame_legal stackedGame_gravity over
  have "\<exists>r' t. (Gravity 0 = Gravity r' \<or> Gravity 0 = Spawn r') \<and> getRandomPieceType r' = Some t
         \<and> currentPiece ?over = new_Tetromino t
         \<and> checkCollision (grid ?over) (blocks (new_Tetromino t)) = Inr True"
    by blast
  then have b: "checkCollision (''####      '' # ''####      '' # replicate 18 ''#         '')
        (blocks (new_Tetromino T_I)) = Inr True"
    by (auto simp add: getRandomPieceType_def TetrominoType_of_int_def)
  from inst new_TetrisGame_0 firstGame_two_steps play mid
  have "checkCollision (grid ?mid) (blocks (currentPiece ?mid)) = Inr False"
    by blast
  then have c: "checkCollision (grid firstGame) [Point 1 1, Point 2 1, Point 3 1, Point 4 1]
      = Inr False"
    by simp
  from a b c grid_wf_blockedGame stackedGame_legal stackedGame_gravity new_TetrisGame_0
    firstGame_two_steps
  show ?thesis by simp
qed


section \<open>A session\<close>

text \<open>The signed value of a 32-bit sum that stays within the range.\<close>

lemma sint_word_of_int_32:
  "- 2147483648 \<le> k \<Longrightarrow> k \<le> 2147483647 \<Longrightarrow> sint (word_of_int k :: int32) = k"
  by (simp add: sint_sbintrunc' signed_take_bit_int_eq_self)

lemma sint_lineScore: "sint (lineScore n) \<in> {0, 40, 100, 300, 1200}"
  by (simp add: lineScore_def)

lemma sint_lineScore_nonneg: "0 \<le> sint (lineScore n)"
  using sint_lineScore [of n] by auto

lemma updateScore_exact:
  assumes fits: "scoreFits n g"
    and inv: "0 \<le> sint (score g)" "0 \<le> sint (level g) + 1" "0 \<le> sint (linesCleared g)"
  shows "sint (score (updateScore n g)) =
           sint (score g) + sint (lineScore n) * (sint (level g) + 1)
         \<and> sint (linesCleared (updateScore n g)) = sint (linesCleared g) + int n
         \<and> level (updateScore n g) = level g"
proof -
  let ?p = "sint (lineScore n) * (sint (level g) + 1)"
  have p: "0 \<le> ?p"
    using sint_lineScore_nonneg [of n] inv(2) by simp
  have e: "score g + lineScore n * (level g + 1) = word_of_int (sint (score g) + ?p)"
    by simp
  have lo: "- 2147483648 \<le> sint (score g) + ?p"
    using p inv(1) by simp
  have hi: "sint (score g) + ?p \<le> 2147483647"
    using fits by (simp add: scoreFits_def INT_MAX_def)
  have "sint (word_of_int (sint (score g) + ?p) :: int32) = sint (score g) + ?p"
    using lo hi by (rule sint_word_of_int_32)
  then have s: "sint (score g + lineScore n * (level g + 1)) = sint (score g) + ?p"
    by (simp only: e)
  have e': "linesCleared g + of_nat n = word_of_int (sint (linesCleared g) + int n)"
    by simp
  have lo': "- 2147483648 \<le> sint (linesCleared g) + int n"
    using inv(3) by simp
  have hi': "sint (linesCleared g) + int n \<le> 2147483647"
    using fits by (simp add: scoreFits_def INT_MAX_def)
  have "sint (word_of_int (sint (linesCleared g) + int n) :: int32) = sint (linesCleared g) + int n"
    using lo' hi' by (rule sint_word_of_int_32)
  then have l: "sint (linesCleared g + of_nat n) = sint (linesCleared g) + int n"
    by (simp only: e')
  from s l show ?thesis by (simp add: updateScore_def)
qed

lemma updateLevel_exact:
  assumes "levelFits th g"
  shows "score (updateLevel th g) = score g \<and> linesCleared (updateLevel th g) = linesCleared g
     \<and> sint (level g) \<le> sint (level (updateLevel th g))"
proof (cases "th (sint (linesCleared g)) (sint (level g))")
  case False
  then show ?thesis by (simp add: updateLevel_def)
next
  case True
  with assms have "sint (level g) + 1 \<le> 2147483647"
    by (simp add: levelFits_def INT_MAX_def)
  moreover have "- 2147483648 \<le> sint (level g)"
    using sint_ge [of "level g"] by simp
  moreover have "level g + 1 = word_of_int (sint (level g) + 1)"
    by simp
  ultimately have "sint (level g + 1) = sint (level g) + 1"
    by (simp only: sint_word_of_int_32)
  with True show ?thesis by (simp add: updateLevel_def)
qed

lemma clearAndScore_in_range:
  assumes fits: "clearAndScoreFits th g"
    and inv: "0 \<le> sint (score g)" "1 \<le> sint (level g)" "0 \<le> sint (linesCleared g)"
  shows "sint (score g) \<le> sint (score (clearAndScore th g))
     \<and> sint (level g) \<le> sint (level (clearAndScore th g))
     \<and> sint (linesCleared g) \<le> sint (linesCleared (clearAndScore th g))"
proof -
  let ?n = "snd (clearLines (grid g))"
  let ?g1 = "g\<lparr>grid := fst (clearLines (grid g))\<rparr>"
  let ?g2 = "updateScore ?n ?g1"
  from fits have f1: "scoreFits ?n ?g1" and f2: "levelFits th ?g2"
    by (simp_all add: clearAndScoreFits_def Let_def)
  from inv have "0 \<le> sint (score ?g1)" "0 \<le> sint (level ?g1) + 1" "0 \<le> sint (linesCleared ?g1)"
    by simp_all
  from updateScore_exact [OF f1 this]
  have s: "sint (score ?g2) = sint (score g) + sint (lineScore ?n) * (sint (level g) + 1)"
    and l: "sint (linesCleared ?g2) = sint (linesCleared g) + int ?n"
    and v: "level ?g2 = level g"
    by simp_all
  have "0 \<le> sint (lineScore ?n) * (sint (level g) + 1)"
    using sint_lineScore_nonneg [of ?n] inv(2) by simp
  with s l v updateLevel_exact [OF f2] show ?thesis
    by (simp add: clearAndScore_def Let_def)
qed

lemma apply_game_op_in_range:
  assumes ap: "apply_game_op th a g = Inr g'" and fits: "op_fits th a g"
    and inv: "0 \<le> sint (score g)" "1 \<le> sint (level g)" "0 \<le> sint (linesCleared g)"
  shows "sint (score g) \<le> sint (score g') \<and> sint (level g) \<le> sint (level g')
     \<and> sint (linesCleared g) \<le> sint (linesCleared g')"
proof (cases a)
  case MoveLeft
  with ap show ?thesis
    by (auto simp add: movePieceLeft_def split: if_splits dest: movePiece_frame)
next
  case MoveRight
  with ap show ?thesis
    by (auto simp add: movePieceRight_def split: if_splits dest: movePiece_frame)
next
  case SoftDrop
  with ap show ?thesis
    by (auto simp add: movePieceDown_def split: if_splits dest: movePiece_frame)
next
  case RotateCW
  with ap show ?thesis by (auto split: if_splits dest: rotatePiece_frame)
next
  case (Gravity r)
  show ?thesis
  proof (cases "paused g")
    case True
    with ap Gravity show ?thesis by simp
  next
    case False
    with ap Gravity have u: "updateGrid th r g = Inr g'" by simp
    show ?thesis
    proof (cases "checkCollision (grid g) (getMovedShape (currentPiece g) 0 1)")
      case (Inl e)
      with u show ?thesis by (simp add: updateGrid_def)
    next
      case (Inr c)
      show ?thesis
      proof (cases c)
        case False
        with u Inr show ?thesis by (auto simp add: updateGrid_def)
      next
        case True
        with u Inr obtain g1 where l: "lockPiece g = Inr g1"
          and s: "generateNewPiece r (clearAndScore th g1) = Inr g'"
          by (auto simp add: updateGrid_def split: sum.splits)
        from fits Gravity \<open>\<not> paused g\<close> Inr True l have f: "clearAndScoreFits th g1"
          by simp
        from lockPiece_frame [OF l] inv
        have "0 \<le> sint (score g1)" "1 \<le> sint (level g1)" "0 \<le> sint (linesCleared g1)"
          by simp_all
        from clearAndScore_in_range [OF f this] lockPiece_frame [OF l]
          generateNewPiece_frame [OF s]
        show ?thesis by simp
      qed
    qed
  qed
next
  case Lock
  with ap show ?thesis by (auto dest: lockPiece_frame)
next
  case Clear
  with ap show ?thesis by auto
next
  case (ScoreUpdate n)
  with fits have f: "scoreFits n g" by simp
  from inv have "0 \<le> sint (score g)" "0 \<le> sint (level g) + 1" "0 \<le> sint (linesCleared g)"
    by simp_all
  from updateScore_exact [OF f this] sint_lineScore_nonneg [of n] inv(2)
  have "sint (score g) \<le> sint (score (updateScore n g))
     \<and> sint (linesCleared g) \<le> sint (linesCleared (updateScore n g))
     \<and> level (updateScore n g) = level g"
    by simp
  with ap ScoreUpdate show ?thesis by auto
next
  case LevelUpdate
  with fits have "levelFits th g" by simp
  from updateLevel_exact [OF this] ap LevelUpdate show ?thesis by auto
next
  case (Spawn r)
  with ap show ?thesis by (auto dest: generateNewPiece_frame)
next
  case CheckGameOver
  with ap show ?thesis by (auto dest: checkGameOver_frame)
next
  case Pause
  with ap show ?thesis by (auto simp add: pauseGame_def)
qed

lemma run_game_ops_in_range:
  assumes "run_game_ops th ops g = Inr g'" and "run_fits th ops g"
    and "0 \<le> sint (score g)" "1 \<le> sint (level g)" "0 \<le> sint (linesCleared g)"
  shows "sint (score g) \<le> sint (score g') \<and> sint (level g) \<le> sint (level g')
     \<and> sint (linesCleared g) \<le> sint (linesCleared g')"
  using assms
proof (induction ops arbitrary: g)
  case Nil
  then show ?case by simp
next
  case (Cons a as)
  from Cons.prems(1) obtain g1 where a: "apply_game_op th a g = Inr g1"
    and r: "run_game_ops th as g1 = Inr g'"
    by (auto split: sum.splits)
  from Cons.prems(2) a have f: "op_fits th a g" "run_fits th as g1"
    by simp_all
  from apply_game_op_in_range [OF a f(1) Cons.prems(3-5)]
  have m: "sint (score g) \<le> sint (score g1)" "sint (level g) \<le> sint (level g1)"
    "sint (linesCleared g) \<le> sint (linesCleared g1)"
    by simp_all
  with Cons.prems(3-5)
  have "0 \<le> sint (score g1)" "1 \<le> sint (level g1)" "0 \<le> sint (linesCleared g1)"
    by simp_all
  from Cons.IH [OF r f(2) this] m show ?case by simp
qed

lemma new_TetrisGame_counters:
  "new_TetrisGame r = Inr g \<Longrightarrow> score g = 0 \<and> level g = 1 \<and> linesCleared g = 0"
  by (auto simp add: new_TetrisGame_def initializeGame_def initializers_def
      dest: generateNewPiece_frame)

text \<open>
  C8, within the range of the counters: in a session, that is from the state the
  constructor builds and after any sequence of operations, no further sequence of
  operations that runs without error decreases the score, the level or the total of
  cleared lines, as long as every operation of the session fits: the score plus the
  points, the total plus the cleared lines and the level plus one stay at or below
  \<open>INT_MAX\<close>. One operation is the sequence of length one.
\<close>

theorem session_counters_monotone:
  assumes "new_TetrisGame r = Inr g0"
    and "run_game_ops th before g0 = Inr g" and "run_fits th before g0"
    and "run_game_ops th ops g = Inr g'" and "run_fits th ops g"
  shows "sint (score g) \<le> sint (score g') \<and> sint (level g) \<le> sint (level g')
     \<and> sint (linesCleared g) \<le> sint (linesCleared g')"
proof -
  from new_TetrisGame_counters [OF assms(1)]
  have i0: "0 \<le> sint (score g0)" "1 \<le> sint (level g0)" "0 \<le> sint (linesCleared g0)"
    by simp_all
  from run_game_ops_in_range [OF assms(2,3) i0] i0
  have "0 \<le> sint (score g)" "1 \<le> sint (level g)" "0 \<le> sint (linesCleared g)"
    by simp_all
  with assms(4,5) show ?thesis by (rule run_game_ops_in_range)
qed

theorem session_counters_monotone_witness:
  "\<exists>g g'. new_TetrisGame 0 = Inr firstGame
     \<and> run_game_ops everyFourLines [Gravity 3, MoveRight] firstGame = Inr g
     \<and> run_fits everyFourLines [Gravity 3, MoveRight] firstGame
     \<and> run_game_ops everyFourLines [ScoreUpdate 4, LevelUpdate] g = Inr g'
     \<and> run_fits everyFourLines [ScoreUpdate 4, LevelUpdate] g
     \<and> sint (score g) = 0 \<and> sint (score g') = 2400 \<and> sint (level g) = 1
     \<and> sint (level g') = 2 \<and> sint (linesCleared g) = 0 \<and> sint (linesCleared g') = 4
     \<and> sint (score g) \<le> sint (score g') \<and> sint (level g) \<le> sint (level g')
     \<and> sint (linesCleared g) \<le> sint (linesCleared g')"
proof -
  let ?mid = "firstGame\<lparr>currentPiece :=
      \<lparr>ttype = T_I, blocks = [Point 1 1, Point 2 1, Point 3 1, Point 4 1], rotation = 0\<rparr>\<rparr>"
  let ?last = "?mid\<lparr>score := 2400, level := 2, linesCleared := 4\<rparr>"
  have b: "run_fits everyFourLines [Gravity 3, MoveRight] firstGame"
    by (simp add: updateGrid_def movePieceRight_def movePiece_def getMovedShape_def
        Tetromino_move_def move_block_def firstGame_def initializers_def new_Tetromino_def
        baseShapes_def emptyGrid_def GRID_WIDTH_def GRID_HEIGHT_def vector_at_def)
  have c: "run_game_ops everyFourLines [ScoreUpdate 4, LevelUpdate] ?mid = Inr ?last"
    by (simp add: updateScore_def lineScore_def updateLevel_def everyFourLines_def
        firstGame_def initializers_def)
  have d: "run_fits everyFourLines [ScoreUpdate 4, LevelUpdate] ?mid"
    by (simp add: scoreFits_def levelFits_def INT_MAX_def updateScore_def lineScore_def
        everyFourLines_def firstGame_def initializers_def)
  have e: "sint (score ?mid) = 0 \<and> sint (score ?last) = 2400 \<and> sint (level ?mid) = 1
     \<and> sint (level ?last) = 2 \<and> sint (linesCleared ?mid) = 0 \<and> sint (linesCleared ?last) = 4"
    by (simp add: firstGame_def initializers_def)
  from session_counters_monotone [OF new_TetrisGame_0 firstGame_two_steps b c d]
    new_TetrisGame_0 firstGame_two_steps b c d e
  show ?thesis by blast
qed


text \<open>
  Without the bound the score does decrease: after 894784 score updates of four lines
  at level 1 the score is 2147481600, and the next one adds 2400 and wraps to
  -2147483296.
\<close>

lemma run_ScoreUpdate_replicate:
  "run_game_ops th (replicate n (ScoreUpdate k)) g =
     Inr (g\<lparr>score := score g + of_nat n * (lineScore k * (level g + 1)),
           linesCleared := linesCleared g + of_nat n * of_nat k\<rparr>)"
  by (induction n arbitrary: g) (simp_all add: updateScore_def algebra_simps)

theorem session_score_wraps_counterexample:
  "new_TetrisGame 0 = Inr firstGame
   \<and> run_game_ops everyFourLines (replicate 894784 (ScoreUpdate 4)) firstGame =
       Inr (firstGame\<lparr>score := 2147481600, linesCleared := 3579136\<rparr>)
   \<and> apply_game_op everyFourLines (ScoreUpdate 4)
         (firstGame\<lparr>score := 2147481600, linesCleared := 3579136\<rparr>) =
       Inr (firstGame\<lparr>score := 2147481600 + 2400, linesCleared := 3579140\<rparr>)
   \<and> sint (score (firstGame\<lparr>score := 2147481600, linesCleared := 3579136\<rparr>)) = 2147481600
   \<and> sint (score (firstGame\<lparr>score := 2147481600 + 2400, linesCleared := 3579140\<rparr>)) =
       - 2147483296"
proof -
  have a: "run_game_ops everyFourLines (replicate 894784 (ScoreUpdate 4)) firstGame =
       Inr (firstGame\<lparr>score := 2147481600, linesCleared := 3579136\<rparr>)"
    by (simp add: run_ScoreUpdate_replicate lineScore_def firstGame_def initializers_def)
  have b: "apply_game_op everyFourLines (ScoreUpdate 4)
         (firstGame\<lparr>score := 2147481600, linesCleared := 3579136\<rparr>) =
       Inr (firstGame\<lparr>score := 2147481600 + 2400, linesCleared := 3579140\<rparr>)"
    by (simp add: updateScore_def lineScore_def firstGame_def initializers_def)
  have c: "sint (score (firstGame\<lparr>score := 2147481600, linesCleared := 3579136\<rparr>)) = 2147481600
   \<and> sint (score (firstGame\<lparr>score := 2147481600 + 2400, linesCleared := 3579140\<rparr>)) =
       - 2147483296"
    by simp
  from new_TetrisGame_0 a b c show ?thesis by simp
qed


end
